theory Spec2Isabelle
  imports Main "HOL-Library.Sublist"
begin

section \<open>The Identifier node of the tree-shaking engine\<close>

text \<open>
  This theory embeds the class \<open>Identifier\<close> (an AST node of the effect analysis) and
  the helper \<open>closestParentFunctionOrProgram\<close>. An Identifier is a mutable object that
  points to a shared, mutable Variable; its methods are modelled by explicit state
  passing over a state that holds the node, the heap of Variable objects and the log of
  the calls the node makes to objects whose classes live in other files (scopes,
  variables, the module context). A JavaScript exception is a value of type \<open>error\<close>.
  JavaScript truthiness is modelled by \<open>bool\<close>: a method that returns a falsy non-boolean
  (\<open>undefined\<close>) is modelled as returning \<open>False\<close>.
\<close>

subsection \<open>AST nodes and the closest function or program\<close>

text \<open>
  Every AST node has a \<open>type\<close> tag, a \<open>start\<close> offset and a \<open>parent\<close> link; the parent
  links of a parsed tree form finite chains, so a node carries its chain of ancestors.
  \<open>node_id\<close> is the identity of the object: \<open>===\<close> on nodes compares it.
\<close>

datatype AstNode =
  AstNode (node_id: nat) (node_type: string) (node_start: nat) (node_parent: "AstNode option")

text \<open>
  The regular expression \<open>/^Program|Function/\<close>: an alternation of \<open>^Program\<close> (the
  string starts with Program) and \<open>Function\<close> (the string contains Function anywhere).
\<close>

definition testProgramOrFunction :: "string \<Rightarrow> bool" where
  "testProgramOrFunction t = (prefix ''Program'' t \<or> sublist ''Function'' t)"

text \<open>
  \<open>while (node && !/^Program|Function/.test(node.type)) node = node.parent; return node\<close>.
  \<open>None\<close> is a falsy node (the chain ended).
\<close>

fun closestParentFunctionOrProgram :: "AstNode option \<Rightarrow> AstNode option" where
  "closestParentFunctionOrProgram None = None"
| "closestParentFunctionOrProgram (Some (AstNode i t st p)) =
     (if testProgramOrFunction t then Some (AstNode i t st p)
      else closestParentFunctionOrProgram p)"

text \<open>Object identity \<open>a === b\<close> of two possibly missing nodes.\<close>

definition sameNode :: "AstNode option \<Rightarrow> AstNode option \<Rightarrow> bool" where
  "sameNode a b = (map_option node_id a = map_option node_id b)"

subsection \<open>Variables, paths, interactions, the purity registry\<close>

text \<open>
  The classes of Variable the node distinguishes with \<open>instanceof\<close>: \<open>LocalVariable\<close>
  (and its subclasses), \<open>GlobalVariable\<close>, and every other class.
\<close>

datatype VariableClass = LocalVariable | GlobalVariable | OtherVariable

type_synonym var_ref = nat

record Variable =
  vclass :: VariableClass
  kind :: "string option"
  declarations :: "AstNode list"
  initReached :: bool

text \<open>
  An ObjectPath is a list of keys; a key is a string or one of the symbols for unknown
  keys, which is never a property name of a registry object.
\<close>

datatype ObjectPathKey = StringKey string | SymbolKey string

type_synonym ObjectPath = "ObjectPathKey list"

definition EMPTY_PATH :: ObjectPath where
  "EMPTY_PATH = []"

datatype InteractionType = INTERACTION_ACCESSED | INTERACTION_ASSIGNED | INTERACTION_CALLED

text \<open>
  An interaction has a type tag and further contents (arguments, this argument) that the
  node only passes on; the contents are an opaque handle.
\<close>

record NodeInteraction =
  itype :: InteractionType
  contents :: nat

definition NODE_INTERACTION_UNKNOWN_ACCESS :: NodeInteraction where
  "NODE_INTERACTION_UNKNOWN_ACCESS = \<lparr>itype = INTERACTION_ACCESSED, contents = 0\<rparr>"

text \<open>Objects the node only passes on to other objects are opaque handles.\<close>

type_synonym HasEffectsContext = nat
type_synonym PathTracker = nat
type_synonym DeoptimizableEntity = nat
type_synonym InitRef = nat

text \<open>
  The purity registry \<open>manualPureFunctions\<close>: a nested object; each level maps path
  segments to the next level and may carry the flag stored under \<open>PureFunctionKey\<close>
  (absent or false is \<open>False\<close>).
\<close>

datatype PureFunctions =
  PureFunctions (pureFlag: bool) (segments: "(string \<times> PureFunctions) list")

text \<open>\<open>currentPureFunction[segment as string]\<close>: a symbol is no property of a registry level.\<close>

fun lookupSegment :: "PureFunctions \<Rightarrow> ObjectPathKey \<Rightarrow> PureFunctions option" where
  "lookupSegment p (StringKey k) = map_of (segments p) k"
| "lookupSegment p (SymbolKey k) = None"

datatype LiteralValueOrUnknown = UnknownValue | LiteralValue string

datatype ExpressionEntity = UNKNOWN_EXPRESSION | VariableEntity var_ref | OtherEntity nat

subsection \<open>The node, the state and the errors\<close>

record Identifier =
  ident_id :: nat
  name :: string
  start :: nat
  parent :: "AstNode option"
  variable :: "var_ref option"
  isTDZAccess :: "bool option"
  deoptimized :: bool
  included :: bool

text \<open>The calls the node makes to methods defined in other files, in order.\<close>

datatype call =
    Scope_addDeclaration nat InitRef bool
  | Scope_addParameterDeclaration nat
  | Variable_markInitializersForDeoptimization var_ref
  | Variable_consolidateInitializers var_ref
  | Variable_deoptimizePath var_ref ObjectPath
  | Context_requestTreeshakingPass
  | Context_includeVariableInModule var_ref

record state =
  node :: Identifier
  heap :: "var_ref \<Rightarrow> Variable"
  calls :: "call list"

text \<open>
  \<open>errorIllegalImportReassignment(name, moduleId)\<close> builds the log object of the error;
  the builder is in another file, so the object is the uninterpreted pair of its
  arguments. \<open>context.error(props, pos)\<close> never returns: it raises \<open>ContextError\<close>.
  \<open>TypeError\<close> is JavaScript's error on reading a property of \<open>null\<close>.
\<close>

datatype RollupLog = errorIllegalImportReassignment string string

datatype error = ContextError RollupLog nat | InternalError string | TypeError

record NormalizedTreeshakingOptions =
  correctVarValueBeforeDeclaration :: bool
  unknownGlobalSideEffects :: bool

text \<open>
  What the node reads from, and asks of, the objects around it: the options
  (\<open>treeshake\<close> is \<open>false\<close>, here \<open>None\<close>, or an options object), the purity registry, the
  module id, the methods of Scope, and the methods of the expression entities other than
  \<open>UNKNOWN_EXPRESSION\<close> (variables among them). Their bodies are in other files and are
  parameters here. A scope's registration yields the variable and the heap after it.
\<close>

record env =
  treeshake :: "NormalizedTreeshakingOptions option"
  manualPureFunctions :: PureFunctions
  module_id :: string
  scope_contains :: "state \<Rightarrow> string \<Rightarrow> bool"
  scope_addDeclaration :: "state \<Rightarrow> InitRef \<Rightarrow> bool \<Rightarrow> var_ref \<times> (var_ref \<Rightarrow> Variable)"
  scope_addParameterDeclaration :: "state \<Rightarrow> var_ref \<times> (var_ref \<Rightarrow> Variable)"
  entity_hasEffectsOnInteractionAtPath ::
    "state \<Rightarrow> ExpressionEntity \<Rightarrow> ObjectPath \<Rightarrow> NodeInteraction \<Rightarrow> HasEffectsContext \<Rightarrow> bool"
  entity_getLiteralValueAtPath ::
    "state \<Rightarrow> ExpressionEntity \<Rightarrow> ObjectPath \<Rightarrow> PathTracker \<Rightarrow> DeoptimizableEntity
      \<Rightarrow> LiteralValueOrUnknown"
  entity_getReturnExpressionWhenCalledAtPath ::
    "state \<Rightarrow> ExpressionEntity \<Rightarrow> ObjectPath \<Rightarrow> NodeInteraction \<Rightarrow> PathTracker
      \<Rightarrow> DeoptimizableEntity \<Rightarrow> ExpressionEntity \<times> bool"

subsection \<open>The unknown expression\<close>

text \<open>
  Modelled from the spec: the methods of the constant \<open>UNKNOWN_EXPRESSION\<close>, whose class
  is in another file. The protocol's conservative defaults: every interaction at every
  path has effects.
\<close>

definition unknown_hasEffectsOnInteractionAtPath :: "ObjectPath \<Rightarrow> NodeInteraction \<Rightarrow> bool" where
  "unknown_hasEffectsOnInteractionAtPath path interaction = True"

text \<open>
  Modelled from the spec: the literal value of \<open>UNKNOWN_EXPRESSION\<close> at every path is
  unknown.
\<close>

definition unknown_getLiteralValueAtPath :: "ObjectPath \<Rightarrow> LiteralValueOrUnknown" where
  "unknown_getLiteralValueAtPath path = UnknownValue"

text \<open>
  Modelled from the spec: calling \<open>UNKNOWN_EXPRESSION\<close> at any path returns the unknown
  expression, and the call is not known to be free of effects.
\<close>

definition unknown_getReturnExpressionWhenCalledAtPath ::
  "ObjectPath \<Rightarrow> NodeInteraction \<Rightarrow> ExpressionEntity \<times> bool" where
  "unknown_getReturnExpressionWhenCalledAtPath path interaction = (UNKNOWN_EXPRESSION, False)"

text \<open>Method dispatch on an expression entity.\<close>

definition call_hasEffectsOnInteractionAtPath ::
  "env \<Rightarrow> state \<Rightarrow> ExpressionEntity \<Rightarrow> ObjectPath \<Rightarrow> NodeInteraction \<Rightarrow> HasEffectsContext \<Rightarrow> bool" where
  "call_hasEffectsOnInteractionAtPath env s e path interaction ctx =
     (if e = UNKNOWN_EXPRESSION then unknown_hasEffectsOnInteractionAtPath path interaction
      else entity_hasEffectsOnInteractionAtPath env s e path interaction ctx)"

definition call_getLiteralValueAtPath ::
  "env \<Rightarrow> state \<Rightarrow> ExpressionEntity \<Rightarrow> ObjectPath \<Rightarrow> PathTracker \<Rightarrow> DeoptimizableEntity
    \<Rightarrow> LiteralValueOrUnknown" where
  "call_getLiteralValueAtPath env s e path recursionTracker origin =
     (if e = UNKNOWN_EXPRESSION then unknown_getLiteralValueAtPath path
      else entity_getLiteralValueAtPath env s e path recursionTracker origin)"

definition call_getReturnExpressionWhenCalledAtPath ::
  "env \<Rightarrow> state \<Rightarrow> ExpressionEntity \<Rightarrow> ObjectPath \<Rightarrow> NodeInteraction \<Rightarrow> PathTracker
    \<Rightarrow> DeoptimizableEntity \<Rightarrow> ExpressionEntity \<times> bool" where
  "call_getReturnExpressionWhenCalledAtPath env s e path interaction recursionTracker origin =
     (if e = UNKNOWN_EXPRESSION then unknown_getReturnExpressionWhenCalledAtPath path interaction
      else entity_getReturnExpressionWhenCalledAtPath env s e path interaction recursionTracker origin)"

subsection \<open>The methods of Identifier\<close>

text \<open>
  \<open>isPureFunction(path)\<close>: start at the registry entry of the identifier's name; at each
  segment, if the current level is missing answer false, if it is flagged pure answer
  true, else descend; after the last segment answer the flag of the level reached.
\<close>

fun walkPureFunctions :: "PureFunctions option \<Rightarrow> ObjectPath \<Rightarrow> bool" where
  "walkPureFunctions currentPureFunction [] =
     (case currentPureFunction of None \<Rightarrow> False | Some p \<Rightarrow> pureFlag p)"
| "walkPureFunctions currentPureFunction (segment # rest) =
     (case currentPureFunction of
        Some p \<Rightarrow> if pureFlag p then True else walkPureFunctions (lookupSegment p segment) rest
      | None \<Rightarrow> False)"

definition isPureFunction :: "env \<Rightarrow> Identifier \<Rightarrow> ObjectPath \<Rightarrow> bool" where
  "isPureFunction env n path =
     walkPureFunctions (lookupSegment (manualPureFunctions env) (StringKey (name n))) path"

text \<open>
  For comparison, the lookup as the specification words it: walk the whole path; the
  answer is the flag of the entry at exactly that path, and false when a segment is
  absent.
\<close>

fun registryAt :: "PureFunctions option \<Rightarrow> ObjectPath \<Rightarrow> PureFunctions option" where
  "registryAt cur [] = cur"
| "registryAt cur (segment # rest) =
     (case cur of None \<Rightarrow> None | Some p \<Rightarrow> registryAt (lookupSegment p segment) rest)"

definition flaggedPureAtExactPath :: "env \<Rightarrow> Identifier \<Rightarrow> ObjectPath \<Rightarrow> bool" where
  "flaggedPureAtExactPath env n path =
     (case registryAt (lookupSegment (manualPureFunctions env) (StringKey (name n))) path of
        None \<Rightarrow> False
      | Some p \<Rightarrow> pureFlag p)"

text \<open>The keys of \<open>tdzVariableKinds\<close> (an object without prototype).\<close>

definition tdzVariableKinds :: "string set" where
  "tdzVariableKinds = {''class'', ''const'', ''let'', ''var''}"

text \<open>\<open>variable.kind && variable.kind in tdzVariableKinds\<close>: null and the empty string are falsy.\<close>

definition hasTdzVariableKind :: "Variable \<Rightarrow> bool" where
  "hasTdzVariableKind var =
     (case kind var of None \<Rightarrow> False | Some k \<Rightarrow> k \<noteq> [] \<and> k \<in> tdzVariableKinds)"

text \<open>The identifier as an AST node: its type tag is \<open>Identifier\<close>.\<close>

definition thisNode :: "Identifier \<Rightarrow> AstNode" where
  "thisNode n = AstNode (ident_id n) ''Identifier'' (start n) (parent n)"

text \<open>\<open>return (this.isTDZAccess = b)\<close>.\<close>

definition cacheTDZ :: "state \<Rightarrow> bool \<Rightarrow> bool \<times> state" where
  "cacheTDZ s b = (b, s\<lparr>node := (node s)\<lparr>isTDZAccess := Some b\<rparr>\<rparr>)"

text \<open>
  The test of the second \<open>if\<close> of \<open>isPossibleTDZ\<close>: exactly one declaration, this node
  starts before it, and both have the same closest function or program.
\<close>

definition accessedBeforeDeclaration :: "Identifier \<Rightarrow> Variable \<Rightarrow> bool" where
  "accessedBeforeDeclaration n var =
     (case declarations var of
        [decl_id] \<Rightarrow>
          start n < node_start decl_id \<and>
          sameNode (closestParentFunctionOrProgram (Some (thisNode n)))
                   (closestParentFunctionOrProgram (Some decl_id))
      | _ \<Rightarrow> False)"

definition isPossibleTDZ :: "state \<Rightarrow> bool \<times> state" where
  "isPossibleTDZ s =
     (case isTDZAccess (node s) of
        Some b \<Rightarrow> (b, s)
      | None \<Rightarrow>
          (case variable (node s) of
             None \<Rightarrow> cacheTDZ s False
           | Some v \<Rightarrow>
               if vclass (heap s v) \<noteq> LocalVariable \<or> \<not> hasTdzVariableKind (heap s v)
               then cacheTDZ s False
               else if accessedBeforeDeclaration (node s) (heap s v) then cacheTDZ s True
               else if \<not> initReached (heap s v) then cacheTDZ s True
               else cacheTDZ s False))"

definition markDeclarationReached :: "state \<Rightarrow> error + state" where
  "markDeclarationReached s =
     (case variable (node s) of
        None \<Rightarrow> Inl TypeError
      | Some v \<Rightarrow> Inr (s\<lparr>heap := (heap s)(v := (heap s v)\<lparr>initReached := True\<rparr>)\<rparr>))"

definition applyDeoptimizations :: "state \<Rightarrow> state" where
  "applyDeoptimizations s =
     (let s1 = s\<lparr>node := (node s)\<lparr>deoptimized := True\<rparr>\<rparr> in
      case variable (node s1) of
        None \<Rightarrow> s1
      | Some v \<Rightarrow>
          if vclass (heap s1 v) = LocalVariable
          then s1\<lparr>calls := calls s1 @
                 [Variable_consolidateInitializers v, Context_requestTreeshakingPass]\<rparr>
          else s1)"

text \<open>\<open>if (!this.deoptimized) this.applyDeoptimizations()\<close>, the first line of two methods.\<close>

definition ensureDeoptimized :: "state \<Rightarrow> state" where
  "ensureDeoptimized s = (if \<not> deoptimized (node s) then applyDeoptimizations s else s)"

text \<open>
  The returned expression of \<open>hasEffects\<close>: the option, \<open>instanceof GlobalVariable\<close>, not
  registered pure at the empty path, and the variable's answer for an unknown access.
\<close>

definition unknownGlobalAccessHasEffects :: "env \<Rightarrow> state \<Rightarrow> HasEffectsContext \<Rightarrow> bool" where
  "unknownGlobalAccessHasEffects env s ctx =
     ((case treeshake env of None \<Rightarrow> False | Some opts \<Rightarrow> unknownGlobalSideEffects opts) \<and>
      (case variable (node s) of
         None \<Rightarrow> False
       | Some v \<Rightarrow>
           vclass (heap s v) = GlobalVariable \<and>
           \<not> isPureFunction env (node s) EMPTY_PATH \<and>
           call_hasEffectsOnInteractionAtPath env s (VariableEntity v) EMPTY_PATH
             NODE_INTERACTION_UNKNOWN_ACCESS ctx))"

definition hasEffects :: "env \<Rightarrow> state \<Rightarrow> HasEffectsContext \<Rightarrow> error + (bool \<times> state)" where
  "hasEffects env s ctx =
     (let (tdz, s2) = isPossibleTDZ (ensureDeoptimized s) in
      if tdz then
        (case variable (node s2) of
           None \<Rightarrow> Inl TypeError
         | Some v \<Rightarrow>
             if kind (heap s2 v) \<noteq> Some ''var'' then Inr (True, s2)
             else Inr (unknownGlobalAccessHasEffects env s2 ctx, s2))
      else Inr (unknownGlobalAccessHasEffects env s2 ctx, s2))"

definition include_identifier :: "state \<Rightarrow> state" where
  "include_identifier s =
     (let s1 = ensureDeoptimized s in
      if \<not> included (node s1) then
        (let s2 = s1\<lparr>node := (node s1)\<lparr>included := True\<rparr>\<rparr> in
         case variable (node s2) of
           None \<Rightarrow> s2
         | Some v \<Rightarrow> s2\<lparr>calls := calls s2 @ [Context_includeVariableInModule v]\<rparr>)
      else s1)"

text \<open>\<open>variable.kind = kind; return [(this.variable = variable)]\<close>, the end of \<open>declare\<close>.\<close>

definition finishDeclare :: "state \<Rightarrow> var_ref \<Rightarrow> string \<Rightarrow> var_ref list \<times> state" where
  "finishDeclare s v k =
     ([v], s\<lparr>heap := (heap s)(v := (heap s v)\<lparr>kind := Some k\<rparr>),
              node := (node s)\<lparr>variable := Some v\<rparr>\<rparr>)"

text \<open>\<open>this.scope.addDeclaration(this, this.context, init, isHoisted)\<close>.\<close>

definition addDeclaration :: "env \<Rightarrow> state \<Rightarrow> InitRef \<Rightarrow> bool \<Rightarrow> var_ref \<times> state" where
  "addDeclaration env s init isHoisted =
     (let (v, h) = scope_addDeclaration env s init isHoisted in
      (v, s\<lparr>heap := h, calls := calls s @ [Scope_addDeclaration (ident_id (node s)) init isHoisted]\<rparr>))"

definition addParameterDeclaration :: "env \<Rightarrow> state \<Rightarrow> var_ref \<times> state" where
  "addParameterDeclaration env s =
     (let (v, h) = scope_addParameterDeclaration env s in
      (v, s\<lparr>heap := h, calls := calls s @ [Scope_addParameterDeclaration (ident_id (node s))]\<rparr>))"

text \<open>\<open>treeshake && treeshake.correctVarValueBeforeDeclaration\<close>.\<close>

definition correctVarValueBeforeDeclaration_enabled :: "env \<Rightarrow> bool" where
  "correctVarValueBeforeDeclaration_enabled env =
     (case treeshake env of None \<Rightarrow> False | Some opts \<Rightarrow> correctVarValueBeforeDeclaration opts)"

definition declare_identifier ::
  "env \<Rightarrow> state \<Rightarrow> string \<Rightarrow> InitRef \<Rightarrow> error + (var_ref list \<times> state)" where
  "declare_identifier env s k init =
     (if k = ''var'' then
        (let (v, s1) = addDeclaration env s init True in
         if correctVarValueBeforeDeclaration_enabled env
         then Inr (finishDeclare
                (s1\<lparr>calls := calls s1 @ [Variable_markInitializersForDeoptimization v]\<rparr>) v k)
         else Inr (finishDeclare s1 v k))
      else if k = ''function'' then
        (let (v, s1) = addDeclaration env s init False in Inr (finishDeclare s1 v k))
      else if k = ''let'' \<or> k = ''const'' \<or> k = ''class'' then
        (let (v, s1) = addDeclaration env s init False in Inr (finishDeclare s1 v k))
      else if k = ''parameter'' then
        (let (v, s1) = addParameterDeclaration env s in Inr (finishDeclare s1 v k))
      else Inl (InternalError (''Internal Error: Unexpected identifier kind '' @ k @ ''.'')))"

definition disallowImportReassignment :: "env \<Rightarrow> state \<Rightarrow> error" where
  "disallowImportReassignment env s =
     ContextError (errorIllegalImportReassignment (name (node s)) (module_id env)) (start (node s))"

definition deoptimizePath :: "env \<Rightarrow> state \<Rightarrow> ObjectPath \<Rightarrow> error + state" where
  "deoptimizePath env s path =
     (if length path = 0 \<and> \<not> scope_contains env s (name (node s))
      then Inl (disallowImportReassignment env s)
      else
        (case variable (node s) of
           None \<Rightarrow> Inr s
         | Some v \<Rightarrow> Inr (s\<lparr>calls := calls s @ [Variable_deoptimizePath v path]\<rparr>)))"

text \<open>Returns \<open>UNKNOWN_EXPRESSION\<close>, the variable, or \<open>null\<close> (here \<open>None\<close>).\<close>

definition getVariableRespectingTDZ :: "state \<Rightarrow> ExpressionEntity option \<times> state" where
  "getVariableRespectingTDZ s =
     (let (tdz, s1) = isPossibleTDZ s in
      if tdz then (Some UNKNOWN_EXPRESSION, s1)
      else (map_option VariableEntity (variable (node s1)), s1))"

definition getLiteralValueAtPath ::
  "env \<Rightarrow> state \<Rightarrow> ObjectPath \<Rightarrow> PathTracker \<Rightarrow> DeoptimizableEntity
    \<Rightarrow> error + (LiteralValueOrUnknown \<times> state)" where
  "getLiteralValueAtPath env s path recursionTracker origin =
     (let (target, s1) = getVariableRespectingTDZ s in
      case target of
        None \<Rightarrow> Inl TypeError
      | Some e \<Rightarrow> Inr (call_getLiteralValueAtPath env s1 e path recursionTracker origin, s1))"

definition getReturnExpressionWhenCalledAtPath ::
  "env \<Rightarrow> state \<Rightarrow> ObjectPath \<Rightarrow> NodeInteraction \<Rightarrow> PathTracker \<Rightarrow> DeoptimizableEntity
    \<Rightarrow> error + ((ExpressionEntity \<times> bool) \<times> state)" where
  "getReturnExpressionWhenCalledAtPath env s path interaction recursionTracker origin =
     (let (target, s1) = getVariableRespectingTDZ s in
      case target of
        None \<Rightarrow> Inl TypeError
      | Some e \<Rightarrow>
          (let (expression, isPure) =
                 call_getReturnExpressionWhenCalledAtPath env s1 e path interaction
                   recursionTracker origin
           in Inr ((expression, isPure \<or> isPureFunction env (node s1) path), s1)))"

text \<open>
  \<open>&&\<close> evaluates its right operand only when the left one is truthy, so the verdict is
  computed (and cached) only on the branches that reach \<open>getVariableRespectingTDZ\<close>.
\<close>

definition askTarget ::
  "env \<Rightarrow> state \<Rightarrow> ObjectPath \<Rightarrow> NodeInteraction \<Rightarrow> HasEffectsContext
    \<Rightarrow> error + (bool \<times> state)" where
  "askTarget env s path interaction ctx =
     (let (target, s1) = getVariableRespectingTDZ s in
      case target of
        None \<Rightarrow> Inl TypeError
      | Some e \<Rightarrow> Inr (call_hasEffectsOnInteractionAtPath env s1 e path interaction ctx, s1))"

definition hasEffectsOnInteractionAtPath ::
  "env \<Rightarrow> state \<Rightarrow> ObjectPath \<Rightarrow> NodeInteraction \<Rightarrow> HasEffectsContext
    \<Rightarrow> error + (bool \<times> state)" where
  "hasEffectsOnInteractionAtPath env s path interaction ctx =
     (case itype interaction of
        INTERACTION_ACCESSED \<Rightarrow>
          if variable (node s) = None then Inr (False, s)
          else if isPureFunction env (node s) path then Inr (False, s)
          else askTarget env s path interaction ctx
      | INTERACTION_ASSIGNED \<Rightarrow>
          if length path > 0 then askTarget env s path interaction ctx
          else
            (case variable (node s) of
               None \<Rightarrow> Inl TypeError
             | Some v \<Rightarrow>
                 Inr (call_hasEffectsOnInteractionAtPath env s (VariableEntity v) path
                        interaction ctx, s))
      | INTERACTION_CALLED \<Rightarrow>
          if isPureFunction env (node s) path then Inr (False, s)
          else askTarget env s path interaction ctx)"

subsection \<open>Sequences of operations on one node\<close>

text \<open>
  The analysis calls the methods of a node again and again, over several passes, while
  the rest of the program changes the heap of variables and the public fields of the
  node. \<open>isTDZAccess\<close> is a private field: code outside the class cannot write it, so an
  outside mutation is any function on states whose effect on \<open>isTDZAccess\<close> is undone.
\<close>

datatype operation =
    Op_isPossibleTDZ
  | Op_hasEffects HasEffectsContext
  | Op_include
  | Op_markDeclarationReached
  | Op_declare string InitRef
  | Op_deoptimizePath ObjectPath
  | Op_getLiteralValueAtPath ObjectPath PathTracker DeoptimizableEntity
  | Op_getReturnExpressionWhenCalledAtPath ObjectPath NodeInteraction PathTracker DeoptimizableEntity
  | Op_hasEffectsOnInteractionAtPath ObjectPath NodeInteraction HasEffectsContext
  | Op_outside "state \<Rightarrow> state"

definition outside :: "(state \<Rightarrow> state) \<Rightarrow> state \<Rightarrow> state" where
  "outside f s = (f s)\<lparr>node := (node (f s))\<lparr>isTDZAccess := isTDZAccess (node s)\<rparr>\<rparr>"

fun step :: "env \<Rightarrow> operation \<Rightarrow> state \<Rightarrow> error + state" where
  "step env Op_isPossibleTDZ s = Inr (snd (isPossibleTDZ s))"
| "step env (Op_hasEffects ctx) s = map_sum id snd (hasEffects env s ctx)"
| "step env Op_include s = Inr (include_identifier s)"
| "step env Op_markDeclarationReached s = markDeclarationReached s"
| "step env (Op_declare k init) s = map_sum id snd (declare_identifier env s k init)"
| "step env (Op_deoptimizePath path) s = deoptimizePath env s path"
| "step env (Op_getLiteralValueAtPath path t origin) s =
     map_sum id snd (getLiteralValueAtPath env s path t origin)"
| "step env (Op_getReturnExpressionWhenCalledAtPath path i t origin) s =
     map_sum id snd (getReturnExpressionWhenCalledAtPath env s path i t origin)"
| "step env (Op_hasEffectsOnInteractionAtPath path i ctx) s =
     map_sum id snd (hasEffectsOnInteractionAtPath env s path i ctx)"
| "step env (Op_outside f) s = Inr (outside f s)"

text \<open>Run the operations in order; an exception ends the run.\<close>

fun run :: "env \<Rightarrow> operation list \<Rightarrow> state \<Rightarrow> error + state" where
  "run env [] s = Inr s"
| "run env (op # ops) s =
     (case step env op s of Inl e \<Rightarrow> Inl e | Inr s1 \<Rightarrow> run env ops s1)"


fun isMarkCall :: "call \<Rightarrow> bool" where
  "isMarkCall (Variable_markInitializersForDeoptimization v) = True"
| "isMarkCall c = False"


subsection \<open>Notions used in the statements\<close>

text \<open>
  The state \<open>hasEffects\<close> leaves behind: the deoptimizations applied, then the verdict
  cached.
\<close>

definition afterHasEffects :: "state \<Rightarrow> state" where
  "afterHasEffects s = snd (isPossibleTDZ (ensureDeoptimized s))"



text \<open>
  The heap the scope hands back with that variable, and the call \<open>declare\<close> makes to the
  scope.
\<close>

definition registeredHeap :: "env \<Rightarrow> state \<Rightarrow> string \<Rightarrow> InitRef \<Rightarrow> var_ref \<Rightarrow> Variable" where
  "registeredHeap env s k init =
     (if k = ''parameter'' then snd (scope_addParameterDeclaration env s)
      else snd (scope_addDeclaration env s init (k = ''var'')))"

definition registrationCall :: "state \<Rightarrow> string \<Rightarrow> InitRef \<Rightarrow> call" where
  "registrationCall s k init =
     (if k = ''parameter'' then Scope_addParameterDeclaration (ident_id (node s))
      else Scope_addDeclaration (ident_id (node s)) init (k = ''var''))"

text \<open>
  \<open>deoptimized\<close> is a protected field and the record of the node's calls is the node's
  own: an outside mutation that respects this changes neither. The methods of the node
  are not restricted.
\<close>

fun keepsNodeOwned :: "operation \<Rightarrow> bool" where
  "keepsNodeOwned (Op_outside f) =
     (\<forall>s. deoptimized (node (f s)) = deoptimized (node s) \<and> calls (f s) = calls s)"
| "keepsNodeOwned op = True"

subsection \<open>A scope\<close>

text \<open>
  Modelled from the spec: the variables of a Scope, whose class is in another file. A
  scope holds a mapping of names to Variables.
\<close>

type_synonym ScopeVariables = "(string \<times> var_ref) list"

text \<open>
  Modelled from the spec: a reference for a new Variable, one that the scope maps no
  name to.
\<close>

definition newReference :: "ScopeVariables \<Rightarrow> var_ref" where
  "newReference sc = Suc (fold max (map snd sc) 0)"

text \<open>
  Modelled from the spec: the registration of a declaration in a Scope. A Variable holds
  the ordered list of its declaration sites, and several declarations of one name target
  one Variable: declaring a name the scope maps already adds the site to that Variable
  and yields it; declaring any other name registers a new local Variable, whose
  initialization is not reached yet.
\<close>

definition spec_addDeclaration ::
  "ScopeVariables \<Rightarrow> (var_ref \<Rightarrow> Variable) \<Rightarrow> string \<Rightarrow> AstNode
    \<Rightarrow> var_ref \<times> (var_ref \<Rightarrow> Variable)" where
  "spec_addDeclaration sc h nm site =
     (case map_of sc nm of
        Some v \<Rightarrow> (v, h(v := (h v)\<lparr>declarations := declarations (h v) @ [site]\<rparr>))
      | None \<Rightarrow>
          (newReference sc,
           h(newReference sc :=
               \<lparr>vclass = LocalVariable, kind = None, declarations = [site],
                initReached = False\<rparr>)))"

subsection \<open>Example inputs\<close>

text \<open>
  A module whose top level declares \<open>x\<close> at offset 50 and holds a function at offset 10;
  an identifier \<open>x\<close> is read at offset 20, at the top level or inside that function.
\<close>

definition ex_program :: AstNode where
  "ex_program = AstNode 1 ''Program'' 0 None"

definition ex_function_body :: AstNode where
  "ex_function_body =
     AstNode 3 ''BlockStatement'' 14 (Some (AstNode 2 ''FunctionDeclaration'' 10 (Some ex_program)))"

definition ex_statement :: AstNode where
  "ex_statement = AstNode 4 ''ExpressionStatement'' 20 (Some ex_program)"

definition ex_decl_id :: AstNode where
  "ex_decl_id =
     AstNode 6 ''Identifier'' 50
       (Some (AstNode 5 ''VariableDeclarator'' 50
         (Some (AstNode 8 ''VariableDeclaration'' 44 (Some ex_program)))))"

definition ex_local :: "string \<Rightarrow> bool \<Rightarrow> Variable" where
  "ex_local k reached =
     \<lparr>vclass = LocalVariable, kind = Some k, declarations = [ex_decl_id], initReached = reached\<rparr>"

definition ex_global :: Variable where
  "ex_global = \<lparr>vclass = GlobalVariable, kind = None, declarations = [], initReached = False\<rparr>"

definition ex_identifier :: "nat \<Rightarrow> AstNode \<Rightarrow> Identifier" where
  "ex_identifier pos par =
     \<lparr>ident_id = 7, name = ''x'', start = pos, parent = Some par, variable = Some 0,
      isTDZAccess = None, deoptimized = False, included = False\<rparr>"

definition ex_state :: "Identifier \<Rightarrow> Variable \<Rightarrow> state" where
  "ex_state n var = \<lparr>node = n, heap = (\<lambda>r. var), calls = []\<rparr>"

text \<open>A registry whose only entry flags \<open>x\<close> pure.\<close>

definition ex_registry :: PureFunctions where
  "ex_registry = PureFunctions False [(''x'', PureFunctions True [])]"

definition ex_env :: "bool \<Rightarrow> PureFunctions \<Rightarrow> env" where
  "ex_env enabled registry =
     \<lparr>treeshake = Some \<lparr>correctVarValueBeforeDeclaration = enabled,
                         unknownGlobalSideEffects = enabled\<rparr>,
      manualPureFunctions = registry,
      module_id = ''main.js'',
      scope_contains = (\<lambda>s nm. nm = ''y''),
      scope_addDeclaration = (\<lambda>s init isHoisted. (0, heap s)),
      scope_addParameterDeclaration = (\<lambda>s. (0, heap s)),
      entity_hasEffectsOnInteractionAtPath = (\<lambda>s e path interaction ctx. True),
      entity_getLiteralValueAtPath = (\<lambda>s e path tracker origin. LiteralValue ''1''),
      entity_getReturnExpressionWhenCalledAtPath =
        (\<lambda>s e path interaction tracker origin. (OtherEntity 0, False))\<rparr>"

text \<open>The read of \<open>x\<close> at offset 20 at the top level, and inside the function.\<close>

definition ex_top :: "string \<Rightarrow> bool \<Rightarrow> state" where
  "ex_top k reached = ex_state (ex_identifier 20 ex_statement) (ex_local k reached)"

definition ex_nested :: "string \<Rightarrow> bool \<Rightarrow> state" where
  "ex_nested k reached = ex_state (ex_identifier 20 ex_function_body) (ex_local k reached)"

text \<open>A read of an undeclared name, bound to a global variable.\<close>

definition ex_undeclared :: state where
  "ex_undeclared = ex_state (ex_identifier 20 ex_statement) ex_global"

definition ex_no_registry :: PureFunctions where
  "ex_no_registry = PureFunctions False []"

text \<open>A registry whose only flagged entry is \<open>x.keys\<close>.\<close>

definition ex_nested_registry :: PureFunctions where
  "ex_nested_registry =
     PureFunctions False [(''x'', PureFunctions False [(''keys'', PureFunctions True [])])]"

text \<open>
  The nested read of a \<open>let\<close> variable whose declaration was not reached, after its
  first verdict; and the same node after the declaration was reached, the effects were
  checked and the node was included.
\<close>

definition ex_verdict_cached :: state where
  "ex_verdict_cached =
     \<lparr>node = (ex_identifier 20 ex_function_body)\<lparr>isTDZAccess := Some True\<rparr>,
      heap = (\<lambda>r. ex_local ''let'' False),
      calls = []\<rparr>"

definition ex_later_pass :: state where
  "ex_later_pass =
     \<lparr>node = (ex_identifier 20 ex_function_body)
               \<lparr>isTDZAccess := Some True, deoptimized := True, included := True\<rparr>,
      heap = (\<lambda>r. ex_local ''let'' False)(0 := (ex_local ''let'' False)\<lparr>initReached := True\<rparr>),
      calls = [Variable_consolidateInitializers 0, Context_requestTreeshakingPass,
               Context_includeVariableInModule 0]\<rparr>"

text \<open>The state after \<open>declare('var', init)\<close> on the top-level node, with the option set.\<close>

definition ex_declared_var :: state where
  "ex_declared_var =
     \<lparr>node = (ex_identifier 20 ex_statement)\<lparr>variable := Some 0\<rparr>,
      heap = (\<lambda>r. ex_local ''let'' True)(0 := (ex_local ''let'' True)\<lparr>kind := Some ''var''\<rparr>),
      calls = [Scope_addDeclaration 7 0 True, Variable_markInitializersForDeoptimization 0]\<rparr>"

text \<open>The surroundings of the examples, with a scope that holds the given variables.\<close>

definition ex_scope_env :: "ScopeVariables \<Rightarrow> env" where
  "ex_scope_env sc =
     (ex_env True ex_no_registry)
       \<lparr>scope_contains := (\<lambda>s nm. map_of sc nm \<noteq> None),
        scope_addDeclaration :=
          (\<lambda>s init isHoisted. spec_addDeclaration sc (heap s) (name (node s)) (thisNode (node s))),
        scope_addParameterDeclaration :=
          (\<lambda>s. spec_addDeclaration sc (heap s) (name (node s)) (thisNode (node s)))\<rparr>"

text \<open>
  The module \<open>var x = 1; var x = 2\<close>: the first declaration, at offset 50, registered
  \<open>x\<close> at reference 0; the identifier of the second declaration, at offset 70, is not
  bound yet.
\<close>

definition ex_scope :: ScopeVariables where
  "ex_scope = [(''x'', 0)]"

definition ex_second_declaration :: state where
  "ex_second_declaration =
     \<lparr>node = (ex_identifier 70
                (AstNode 11 ''VariableDeclarator'' 70
                  (Some (AstNode 10 ''VariableDeclaration'' 66 (Some ex_program)))))
               \<lparr>variable := None\<rparr>,
      heap = (\<lambda>r. ex_local ''var'' True),
      calls = []\<rparr>"

text \<open>
  The nested read of \<open>x\<close> as one run: the literal value is queried and the variables are
  changed from outside; then the effects are checked; then the literal value is queried
  again, the node is included and its effects are checked again.
\<close>

definition ex_outside_change :: "state \<Rightarrow> state" where
  "ex_outside_change s = s\<lparr>heap := (\<lambda>r. ex_local ''const'' True)\<rparr>"

definition ex_run_before :: "operation list" where
  "ex_run_before = [Op_getLiteralValueAtPath [] 0 0, Op_outside ex_outside_change]"

definition ex_run_after :: "operation list" where
  "ex_run_after = [Op_getLiteralValueAtPath [] 0 0, Op_include, Op_hasEffects 0]"

definition ex_before_first_check :: state where
  "ex_before_first_check =
     \<lparr>node = (ex_identifier 20 ex_function_body)\<lparr>isTDZAccess := Some False\<rparr>,
      heap = (\<lambda>r. ex_local ''const'' True),
      calls = []\<rparr>"

definition ex_after_first_check :: state where
  "ex_after_first_check =
     \<lparr>node = (ex_identifier 20 ex_function_body)
               \<lparr>isTDZAccess := Some False, deoptimized := True\<rparr>,
      heap = (\<lambda>r. ex_local ''const'' True),
      calls = [Variable_consolidateInitializers 0, Context_requestTreeshakingPass]\<rparr>"

definition ex_after_run :: state where
  "ex_after_run =
     \<lparr>node = (ex_identifier 20 ex_function_body)
               \<lparr>isTDZAccess := Some False, deoptimized := True, included := True\<rparr>,
      heap = (\<lambda>r. ex_local ''const'' True),
      calls = [Variable_consolidateInitializers 0, Context_requestTreeshakingPass,
               Context_includeVariableInModule 0]\<rparr>"

section \<open>Properties\<close>

subsection \<open>Evaluation of the examples\<close>

lemma testProgramOrFunction_examples:
  "testProgramOrFunction ''Program''"
  "testProgramOrFunction ''FunctionDeclaration''"
  "\<not> testProgramOrFunction ''Identifier''"
  "\<not> testProgramOrFunction ''BlockStatement''"
  "\<not> testProgramOrFunction ''ExpressionStatement''"
  "\<not> testProgramOrFunction ''VariableDeclarator''"
  "\<not> testProgramOrFunction ''VariableDeclaration''"
  by (simp_all add: testProgramOrFunction_def sublist_code)

lemmas ex_defs =
  ex_top_def ex_nested_def ex_undeclared_def ex_state_def ex_identifier_def ex_local_def
  ex_global_def ex_statement_def ex_function_body_def ex_decl_id_def ex_program_def
  ex_env_def ex_registry_def ex_no_registry_def ex_nested_registry_def

lemmas tdz_defs =
  isPossibleTDZ_def cacheTDZ_def hasTdzVariableKind_def tdzVariableKinds_def
  accessedBeforeDeclaration_def thisNode_def sameNode_def testProgramOrFunction_examples

subsection \<open>The cached verdict\<close>

lemma isPossibleTDZ_cached: "isTDZAccess (node s) = Some b \<Longrightarrow> isPossibleTDZ s = (b, s)"
  by (simp add: isPossibleTDZ_def)

lemma isPossibleTDZ_caches: "isPossibleTDZ s = (b, s1) \<Longrightarrow> isTDZAccess (node s1) = Some b"
  by (auto simp: isPossibleTDZ_def cacheTDZ_def split: option.splits if_splits)

lemma ensureDeoptimized_fields [simp]:
  "isTDZAccess (node (ensureDeoptimized s)) = isTDZAccess (node s)"
  "variable (node (ensureDeoptimized s)) = variable (node s)"
  "start (node (ensureDeoptimized s)) = start (node s)"
  "parent (node (ensureDeoptimized s)) = parent (node s)"
  "ident_id (node (ensureDeoptimized s)) = ident_id (node s)"
  "name (node (ensureDeoptimized s)) = name (node s)"
  "heap (ensureDeoptimized s) = heap s"
  by (simp_all add: ensureDeoptimized_def applyDeoptimizations_def Let_def split: option.splits)

lemma ensureDeoptimized_deoptimized [simp]: "deoptimized (node (ensureDeoptimized s))"
  by (simp add: ensureDeoptimized_def applyDeoptimizations_def Let_def split: option.splits)


lemma isPossibleTDZ_fields [simp]:
  "variable (node (snd (isPossibleTDZ s))) = variable (node s)"
  "name (node (snd (isPossibleTDZ s))) = name (node s)"
  "deoptimized (node (snd (isPossibleTDZ s))) = deoptimized (node s)"
  "included (node (snd (isPossibleTDZ s))) = included (node s)"
  "heap (snd (isPossibleTDZ s)) = heap s"
  "calls (snd (isPossibleTDZ s)) = calls s"
  by (simp_all add: isPossibleTDZ_def cacheTDZ_def split: option.splits)

lemma thisNode_ensureDeoptimized [simp]:
  "thisNode (node (ensureDeoptimized s)) = thisNode (node s)"
  by (simp add: thisNode_def)

lemma accessedBeforeDeclaration_ensureDeoptimized [simp]:
  "accessedBeforeDeclaration (node (ensureDeoptimized s)) var =
   accessedBeforeDeclaration (node s) var"
  by (simp add: accessedBeforeDeclaration_def split: list.splits)

lemma isPossibleTDZ_ensureDeoptimized:
  "fst (isPossibleTDZ (ensureDeoptimized s)) = fst (isPossibleTDZ s)"
  by (simp add: isPossibleTDZ_def cacheTDZ_def split: option.splits)

lemma getVariableRespectingTDZ_cached:
  "isTDZAccess (node s) = Some b \<Longrightarrow>
   getVariableRespectingTDZ s =
     (if b then Some UNKNOWN_EXPRESSION else map_option VariableEntity (variable (node s)), s)"
  by (simp add: getVariableRespectingTDZ_def isPossibleTDZ_cached)

lemma hasEffects_unfold:
  "hasEffects env s ctx =
     (if fst (isPossibleTDZ s) then
        (case variable (node s) of
           None \<Rightarrow> Inl TypeError
         | Some v \<Rightarrow>
             if kind (heap s v) \<noteq> Some ''var'' then Inr (True, afterHasEffects s)
             else Inr (unknownGlobalAccessHasEffects env (afterHasEffects s) ctx,
                       afterHasEffects s))
      else Inr (unknownGlobalAccessHasEffects env (afterHasEffects s) ctx, afterHasEffects s))"
  unfolding hasEffects_def afterHasEffects_def
  by (simp add: case_prod_beta isPossibleTDZ_ensureDeoptimized split: option.splits)

lemma step_keeps_verdict:
  assumes "isTDZAccess (node s) = Some b" and "step env op s = Inr s1"
  shows "isTDZAccess (node s1) = Some b"
proof (cases op)
  case Op_isPossibleTDZ
  then show ?thesis using assms by (simp add: isPossibleTDZ_cached)
next
  case (Op_hasEffects ctx)
  have "isPossibleTDZ (ensureDeoptimized s) = (b, ensureDeoptimized s)"
    using assms(1) by (simp add: isPossibleTDZ_cached)
  then show ?thesis using assms Op_hasEffects
    by (auto simp: hasEffects_def split: option.splits if_splits)
next
  case Op_include
  then show ?thesis using assms
    by (auto simp: include_identifier_def Let_def split: option.splits if_splits)
next
  case Op_markDeclarationReached
  then show ?thesis using assms
    by (auto simp: markDeclarationReached_def split: option.splits)
next
  case (Op_declare k init)
  then show ?thesis using assms
    by (auto simp: declare_identifier_def finishDeclare_def addDeclaration_def
        addParameterDeclaration_def Let_def split: if_splits prod.splits)
next
  case (Op_deoptimizePath path)
  then show ?thesis using assms
    by (auto simp: deoptimizePath_def split: option.splits if_splits)
next
  case (Op_getLiteralValueAtPath path t origin)
  then show ?thesis using assms
    by (auto simp: getLiteralValueAtPath_def getVariableRespectingTDZ_cached
        split: option.splits if_splits)
next
  case (Op_getReturnExpressionWhenCalledAtPath path i t origin)
  then show ?thesis using assms
    by (auto simp: getReturnExpressionWhenCalledAtPath_def getVariableRespectingTDZ_cached
        split: option.splits if_splits prod.splits)
next
  case (Op_hasEffectsOnInteractionAtPath path i ctx)
  then show ?thesis using assms
    by (auto simp: hasEffectsOnInteractionAtPath_def askTarget_def
        getVariableRespectingTDZ_cached
        split: option.splits if_splits InteractionType.splits)
next
  case (Op_outside f)
  then show ?thesis using assms by (auto simp: outside_def)
qed

lemma run_keeps_verdict:
  "isTDZAccess (node s) = Some b \<Longrightarrow> run env ops s = Inr s1 \<Longrightarrow>
   isTDZAccess (node s1) = Some b"
proof (induction ops arbitrary: s)
  case Nil
  then show ?case by simp
next
  case (Cons op ops)
  then show ?case by (auto split: sum.splits dest: step_keeps_verdict)
qed

text \<open>
  Claim C5. Once \<open>isPossibleTDZ\<close> has answered \<open>b\<close> on a node, it answers \<open>b\<close> again and
  leaves the state as it is, after any run of the node's methods and of outside
  mutations of the variables and of the node's other fields: the verdict is computed at
  most once per node.
\<close>

theorem isPossibleTDZ_verdict_is_permanent:
  assumes "isPossibleTDZ s = (b, s1)" and "run env ops s1 = Inr s2"
  shows "isPossibleTDZ s2 = (b, s2)"
proof -
  have "isTDZAccess (node s1) = Some b"
    using assms(1) by (rule isPossibleTDZ_caches)
  then have "isTDZAccess (node s2) = Some b"
    using assms(2) by (rule run_keeps_verdict)
  then show ?thesis by (rule isPossibleTDZ_cached)
qed

text \<open>
  The verdict of the nested read was positive because the declaration was not reached.
  In a later pass the declaration has been reached, the node has been checked and
  included, and the answer is still positive.
\<close>

theorem isPossibleTDZ_verdict_is_permanent_witness:
  "isPossibleTDZ (ex_nested ''let'' False) = (True, ex_verdict_cached) \<and>
   run (ex_env True ex_no_registry)
     [Op_markDeclarationReached, Op_hasEffects 0, Op_include] ex_verdict_cached
     = Inr ex_later_pass \<and>
   initReached (heap ex_later_pass 0) \<and>
   isPossibleTDZ ex_later_pass = (True, ex_later_pass)"
proof -
  have a: "isPossibleTDZ (ex_nested ''let'' False) = (True, ex_verdict_cached)"
    by (simp add: ex_defs tdz_defs ex_verdict_cached_def)
  have b: "run (ex_env True ex_no_registry)
     [Op_markDeclarationReached, Op_hasEffects 0, Op_include] ex_verdict_cached
     = Inr ex_later_pass"
    by (simp add: ex_defs ex_verdict_cached_def ex_later_pass_def markDeclarationReached_def
        hasEffects_def ensureDeoptimized_def applyDeoptimizations_def isPossibleTDZ_def
        include_identifier_def)
  have c: "initReached (heap ex_later_pass 0)"
    by (simp add: ex_later_pass_def)
  from isPossibleTDZ_verdict_is_permanent [OF a b] a b c show ?thesis by simp
qed

text \<open>A node that asked only now would get the other answer.\<close>

lemma fresh_query_in_later_pass:
  "\<not> fst (isPossibleTDZ (ex_later_pass\<lparr>node := (node ex_later_pass)\<lparr>isTDZAccess := None\<rparr>\<rparr>))"
  by (simp add: ex_later_pass_def ex_defs tdz_defs)


subsection \<open>The first verdict\<close>

text \<open>
  Claim C2. On the first query (nothing cached) \<open>isPossibleTDZ\<close> answers true exactly when
  the node is bound to a \<open>LocalVariable\<close> whose kind is let, const, class or var, and
  either the variable has exactly one declaration, the node starts before it and both
  have the same closest function or program, or the variable's \<open>initReached\<close> is still
  false. In every other case (no variable, no local variable, no kind, another kind,
  neither condition) it answers false.
\<close>

theorem isPossibleTDZ_first_query:
  assumes "isTDZAccess (node s) = None"
  shows "fst (isPossibleTDZ s) \<longleftrightarrow>
    (\<exists>v. variable (node s) = Some v \<and> vclass (heap s v) = LocalVariable \<and>
       (\<exists>k. kind (heap s v) = Some k \<and> k \<in> {''let'', ''const'', ''class'', ''var''}) \<and>
       ((\<exists>d. declarations (heap s v) = [d] \<and> start (node s) < node_start d \<and>
             sameNode (closestParentFunctionOrProgram (Some (thisNode (node s))))
                      (closestParentFunctionOrProgram (Some d)))
        \<or> \<not> initReached (heap s v)))"
  using assms
  by (auto simp: isPossibleTDZ_def cacheTDZ_def hasTdzVariableKind_def tdzVariableKinds_def
      accessedBeforeDeclaration_def split: option.splits list.splits)

text \<open>
  A const declared at offset 50 whose declaration has been reached: the read at offset
  20 at the top level is flagged; the read at offset 20 inside a function is not.
\<close>

theorem isPossibleTDZ_first_query_witness:
  "isTDZAccess (node (ex_top ''const'' True)) = None \<and>
   fst (isPossibleTDZ (ex_top ''const'' True)) \<and>
   isTDZAccess (node (ex_nested ''const'' True)) = None \<and>
   \<not> fst (isPossibleTDZ (ex_nested ''const'' True))"
proof -
  have a: "isTDZAccess (node (ex_top ''const'' True)) = None"
    by (simp add: ex_defs)
  have b: "isTDZAccess (node (ex_nested ''const'' True)) = None"
    by (simp add: ex_defs)
  have "fst (isPossibleTDZ (ex_top ''const'' True))"
    unfolding isPossibleTDZ_first_query [OF a]
    by (simp add: ex_defs thisNode_def sameNode_def testProgramOrFunction_examples)
  moreover have "\<not> fst (isPossibleTDZ (ex_nested ''const'' True))"
    unfolding isPossibleTDZ_first_query [OF b]
    by (simp add: ex_defs thisNode_def sameNode_def testProgramOrFunction_examples)
  ultimately show ?thesis using a b by simp
qed

subsection \<open>Effects of a bare reference\<close>

text \<open>
  Claim C1, as the code has it. When the verdict is positive and the variable's kind is
  not var, \<open>hasEffects\<close> returns true. When the kind is var, the verdict alone flags no
  effect: the result is the one of the clause for global variables, which is false for
  every variable that is not a \<open>GlobalVariable\<close>.
\<close>

theorem hasEffects_TDZ_positive:
  assumes "fst (isPossibleTDZ s)" and "variable (node s) = Some v"
  shows "(kind (heap s v) \<noteq> Some ''var'' \<longrightarrow>
            hasEffects env s ctx = Inr (True, afterHasEffects s)) \<and>
         (kind (heap s v) = Some ''var'' \<longrightarrow>
            hasEffects env s ctx =
              Inr (unknownGlobalAccessHasEffects env (afterHasEffects s) ctx,
                   afterHasEffects s)) \<and>
         (kind (heap s v) = Some ''var'' \<and> vclass (heap s v) \<noteq> GlobalVariable \<longrightarrow>
            hasEffects env s ctx = Inr (False, afterHasEffects s))"
  using assms
  by (simp add: hasEffects_unfold unknownGlobalAccessHasEffects_def afterHasEffects_def)

theorem hasEffects_TDZ_positive_witness:
  "fst (isPossibleTDZ (ex_top ''let'' False)) \<and>
   variable (node (ex_top ''let'' False)) = Some 0 \<and>
   hasEffects (ex_env True ex_no_registry) (ex_top ''let'' False) 0
     = Inr (True, afterHasEffects (ex_top ''let'' False)) \<and>
   fst (isPossibleTDZ (ex_top ''var'' False)) \<and>
   variable (node (ex_top ''var'' False)) = Some 0 \<and>
   hasEffects (ex_env True ex_no_registry) (ex_top ''var'' False) 0
     = Inr (False, afterHasEffects (ex_top ''var'' False))"
proof -
  have a: "fst (isPossibleTDZ (ex_top ''let'' False))"
    by (simp add: ex_defs tdz_defs)
  have b: "variable (node (ex_top ''let'' False)) = Some 0"
    by (simp add: ex_defs)
  have c: "fst (isPossibleTDZ (ex_top ''var'' False))"
    by (simp add: ex_defs tdz_defs)
  have d: "variable (node (ex_top ''var'' False)) = Some 0"
    by (simp add: ex_defs)
  have e: "kind (heap (ex_top ''let'' False) 0) \<noteq> Some ''var''"
    by (simp add: ex_defs)
  have f: "kind (heap (ex_top ''var'' False) 0) = Some ''var'' \<and>
           vclass (heap (ex_top ''var'' False) 0) \<noteq> GlobalVariable"
    by (simp add: ex_defs)
  from hasEffects_TDZ_positive [OF a b, of "ex_env True ex_no_registry" 0] e
  have "hasEffects (ex_env True ex_no_registry) (ex_top ''let'' False) 0
     = Inr (True, afterHasEffects (ex_top ''let'' False))" by blast
  moreover from hasEffects_TDZ_positive [OF c d, of "ex_env True ex_no_registry" 0] f
  have "hasEffects (ex_env True ex_no_registry) (ex_top ''var'' False) 0
     = Inr (False, afterHasEffects (ex_top ''var'' False))" by blast
  ultimately show ?thesis using a b c d by simp
qed

text \<open>
  Claim C1 as stated fails: the read of a var before its declaration has a positive
  verdict, and \<open>hasEffects\<close> returns false.
\<close>

theorem hasEffects_TDZ_positive_var_counterexample:
  "fst (isPossibleTDZ (ex_top ''var'' False)) \<and>
   map_sum id fst (hasEffects (ex_env True ex_no_registry) (ex_top ''var'' False) 0)
     = Inr False"
  by (simp add: hasEffects_def ensureDeoptimized_def applyDeoptimizations_def
      unknownGlobalAccessHasEffects_def ex_defs tdz_defs)

text \<open>
  Claim C6. When the verdict is not positive, \<open>hasEffects\<close> returns true exactly when the
  option \<open>unknownGlobalSideEffects\<close> is set, the node is bound to a \<open>GlobalVariable\<close>, the
  identifier is not registered pure at the empty path, and the variable reports an
  effect for an unknown access at the empty path. With the option off (or tree-shaking
  off) the result is false.
\<close>

theorem hasEffects_not_TDZ:
  assumes "\<not> fst (isPossibleTDZ s)"
  shows "hasEffects env s ctx =
     Inr ((\<exists>opts. treeshake env = Some opts \<and> unknownGlobalSideEffects opts) \<and>
          (\<exists>v. variable (node s) = Some v \<and> vclass (heap s v) = GlobalVariable \<and>
               \<not> isPureFunction env (node s) EMPTY_PATH \<and>
               entity_hasEffectsOnInteractionAtPath env (afterHasEffects s) (VariableEntity v)
                 EMPTY_PATH NODE_INTERACTION_UNKNOWN_ACCESS ctx),
          afterHasEffects s)"
  using assms
  by (auto simp: hasEffects_unfold unknownGlobalAccessHasEffects_def afterHasEffects_def
      call_hasEffectsOnInteractionAtPath_def isPureFunction_def split: option.splits)

text \<open>
  A bare reference to an undeclared name: flagged with the option on, not flagged with
  the option off, and not flagged when the name is registered pure.
\<close>

theorem hasEffects_not_TDZ_witness:
  "\<not> fst (isPossibleTDZ ex_undeclared) \<and>
   hasEffects (ex_env True ex_no_registry) ex_undeclared 0
     = Inr (True, afterHasEffects ex_undeclared) \<and>
   hasEffects (ex_env False ex_no_registry) ex_undeclared 0
     = Inr (False, afterHasEffects ex_undeclared) \<and>
   hasEffects (ex_env True ex_registry) ex_undeclared 0
     = Inr (False, afterHasEffects ex_undeclared)"
proof -
  have a: "\<not> fst (isPossibleTDZ ex_undeclared)"
    by (simp add: ex_defs tdz_defs)
  show ?thesis
    using a hasEffects_not_TDZ [OF a, of "ex_env True ex_no_registry" 0]
      hasEffects_not_TDZ [OF a, of "ex_env False ex_no_registry" 0]
      hasEffects_not_TDZ [OF a, of "ex_env True ex_registry" 0]
    by (simp add: ex_defs isPureFunction_def EMPTY_PATH_def)
qed


subsection \<open>The purity registry\<close>

lemma registryAt_None [simp]: "registryAt None path = None"
  by (cases path) simp_all

lemma registryAt_append: "registryAt cur (xs @ ys) = registryAt (registryAt cur xs) ys"
  by (induction xs arbitrary: cur) (simp_all split: option.splits)

lemma registryAt_stays_None:
  assumes "registryAt cur (take k path) = None" and "k \<le> j"
  shows "registryAt cur (take j path) = None"
proof -
  have "take j path = take k path @ take (j - k) (drop k path)"
    using assms(2) by (metis le_add_diff_inverse take_add)
  then show ?thesis using assms(1) by (simp add: registryAt_append)
qed

lemma walkPureFunctions_iff:
  "walkPureFunctions cur path \<longleftrightarrow>
     (\<exists>k\<le>length path.
        case registryAt cur (take k path) of None \<Rightarrow> False | Some p \<Rightarrow> pureFlag p)"
proof (induction cur path rule: walkPureFunctions.induct)
  case (1 cur)
  then show ?case by (simp split: option.splits)
next
  case (2 cur segment rest)
  show ?case
  proof (cases cur)
    case None
    then show ?thesis by simp
  next
    case (Some p)
    show ?thesis
    proof (cases "pureFlag p")
      case True
      then show ?thesis using Some by (auto intro!: exI[of _ 0])
    next
      case False
      have "(\<exists>k\<le>length (segment # rest).
               case registryAt cur (take k (segment # rest)) of
                 None \<Rightarrow> False | Some p \<Rightarrow> pureFlag p)
        \<longleftrightarrow> (\<exists>k\<le>length rest.
               case registryAt (lookupSegment p segment) (take k rest) of
                 None \<Rightarrow> False | Some p \<Rightarrow> pureFlag p)"
        (is "?L \<longleftrightarrow> ?R")
      proof
        assume ?L
        then obtain k where k: "k \<le> length (segment # rest)"
          "case registryAt cur (take k (segment # rest)) of
             None \<Rightarrow> False | Some p \<Rightarrow> pureFlag p"
          by blast
        show ?R
        proof (cases k)
          case 0
          then show ?thesis using k Some False by simp
        next
          case (Suc j)
          then show ?thesis using k Some by (auto intro!: exI[of _ j])
        qed
      next
        assume ?R
        then obtain j where "j \<le> length rest"
          "case registryAt (lookupSegment p segment) (take j rest) of
             None \<Rightarrow> False | Some p \<Rightarrow> pureFlag p"
          by blast
        then show ?L using Some by (auto intro!: exI[of _ "Suc j"])
      qed
      then show ?thesis using 2 Some False by simp
    qed
  qed
qed

text \<open>
  Claim C3, as the code has it. \<open>isPureFunction\<close> answers true exactly when the walk from
  the identifier's name along the queried path reaches an entry flagged pure at the
  whole path or at a prefix of it. When the registry has no entry at the first \<open>k\<close>
  segments, only the shorter prefixes count: if none of them is flagged, the answer is
  false.
\<close>

theorem isPureFunction_iff_flagged_prefix:
  "(isPureFunction env n path \<longleftrightarrow>
      (\<exists>k\<le>length path. flaggedPureAtExactPath env n (take k path))) \<and>
   (registryAt (lookupSegment (manualPureFunctions env) (StringKey (name n))) (take k path)
      = None \<longrightarrow>
    (isPureFunction env n path \<longleftrightarrow> (\<exists>j<k. flaggedPureAtExactPath env n (take j path))))"
proof -
  let ?root = "lookupSegment (manualPureFunctions env) (StringKey (name n))"
  have iff: "isPureFunction env n path \<longleftrightarrow>
      (\<exists>k\<le>length path. flaggedPureAtExactPath env n (take k path))"
    by (simp add: isPureFunction_def flaggedPureAtExactPath_def walkPureFunctions_iff)
  have "isPureFunction env n path \<longleftrightarrow> (\<exists>j<k. flaggedPureAtExactPath env n (take j path))"
    if none: "registryAt ?root (take k path) = None"
  proof
    assume "isPureFunction env n path"
    then obtain i where i: "flaggedPureAtExactPath env n (take i path)"
      using iff by blast
    have "i < k"
    proof (rule ccontr)
      assume "\<not> i < k"
      then have "registryAt ?root (take i path) = None"
        using none registryAt_stays_None by (metis not_less)
      then show False using i by (simp add: flaggedPureAtExactPath_def)
    qed
    then show "\<exists>j<k. flaggedPureAtExactPath env n (take j path)" using i by blast
  next
    assume "\<exists>j<k. flaggedPureAtExactPath env n (take j path)"
    then obtain j where j: "flaggedPureAtExactPath env n (take j path)" by blast
    have "take (min j (length path)) path = take j path"
      by (cases "j \<le> length path") (simp_all add: min_def)
    then have "flaggedPureAtExactPath env n (take (min j (length path)) path)"
      using j by simp
    then show "isPureFunction env n path"
      using iff by (metis min.cobounded2)
  qed
  then show ?thesis using iff by blast
qed

text \<open>
  With \<open>x\<close> flagged pure, the path \<open>log\<close> on \<open>x\<close> is pure through its empty prefix. With only
  \<open>x.keys\<close> flagged, the path \<open>values\<close> on \<open>x\<close> is absent from the registry and not pure.
\<close>

theorem isPureFunction_iff_flagged_prefix_witness:
  "flaggedPureAtExactPath (ex_env True ex_registry) (ex_identifier 20 ex_statement) (take 0 [StringKey ''log'']) \<and>
   isPureFunction (ex_env True ex_registry) (ex_identifier 20 ex_statement) [StringKey ''log''] \<and>
   registryAt (lookupSegment (manualPureFunctions (ex_env True ex_nested_registry))
       (StringKey (name (ex_identifier 20 ex_statement)))) (take 1 [StringKey ''values''])
     = None \<and>
   \<not> isPureFunction (ex_env True ex_nested_registry) (ex_identifier 20 ex_statement)
       [StringKey ''values'']"
proof -
  let ?n = "ex_identifier 20 ex_statement"
  have a: "flaggedPureAtExactPath (ex_env True ex_registry) ?n (take 0 [StringKey ''log''])"
    by (simp add: flaggedPureAtExactPath_def ex_defs)
  have b: "registryAt (lookupSegment (manualPureFunctions (ex_env True ex_nested_registry))
       (StringKey (name ?n))) (take 1 [StringKey ''values'']) = None"
    by (simp add: ex_defs)
  have c: "\<not> (\<exists>j<1. flaggedPureAtExactPath (ex_env True ex_nested_registry) ?n
                  (take j [StringKey ''values'']))"
    by (simp add: flaggedPureAtExactPath_def ex_defs)
  have "isPureFunction (ex_env True ex_registry) ?n [StringKey ''log'']"
    using isPureFunction_iff_flagged_prefix
      [of "ex_env True ex_registry" ?n "[StringKey ''log'']" 0] a
    by blast
  moreover have "\<not> isPureFunction (ex_env True ex_nested_registry) ?n [StringKey ''values'']"
    using isPureFunction_iff_flagged_prefix
      [of "ex_env True ex_nested_registry" ?n "[StringKey ''values'']" 1] b c
    by blast
  ultimately show ?thesis using a b by blast
qed

text \<open>
  Claim C3 as stated fails: with only \<open>x\<close> flagged pure, the registry has no entry at
  \<open>x.log\<close>, no entry is flagged at that exact path, and the check still answers pure.
\<close>

theorem isPureFunction_exact_path_counterexample:
  "isPureFunction (ex_env True ex_registry) (ex_identifier 20 ex_statement) [StringKey ''log''] \<and>
   registryAt (lookupSegment (manualPureFunctions (ex_env True ex_registry)) (StringKey ''x''))
     [StringKey ''log''] = None \<and>
   \<not> flaggedPureAtExactPath (ex_env True ex_registry) (ex_identifier 20 ex_statement)
       [StringKey ''log'']"
  by (simp add: isPureFunction_def flaggedPureAtExactPath_def ex_defs)

text \<open>Purity suppresses the effects of an access and of a call through the identifier.\<close>

lemma pure_suppresses_access_and_call:
  assumes "isPureFunction env (node s) path" and "itype interaction \<noteq> INTERACTION_ASSIGNED"
  shows "hasEffectsOnInteractionAtPath env s path interaction ctx = Inr (False, s)"
  using assms
  by (simp add: hasEffectsOnInteractionAtPath_def split: InteractionType.splits)

subsection \<open>Import reassignment\<close>

text \<open>
  Claim C4. \<open>deoptimizePath\<close> with the empty path, on a node whose name the scope does not
  contain, raises the illegal reassignment error built from the node's name and the
  module's id, at the node's start position, and nothing else happens. When the scope
  contains the name no error is raised: the call is passed on to the variable the node
  is bound to (and there is nothing to do when it is bound to none).
\<close>

theorem deoptimizePath_import_reassignment:
  "(path = [] \<and> \<not> scope_contains env s (name (node s)) \<longrightarrow>
      deoptimizePath env s path =
        Inl (ContextError (errorIllegalImportReassignment (name (node s)) (module_id env))
               (start (node s)))) \<and>
   (scope_contains env s (name (node s)) \<longrightarrow>
      deoptimizePath env s path =
        Inr (case variable (node s) of
               None \<Rightarrow> s
             | Some v \<Rightarrow> s\<lparr>calls := calls s @ [Variable_deoptimizePath v path]\<rparr>))"
  by (simp add: deoptimizePath_def disallowImportReassignment_def split: option.splits)

text \<open>The scope of the examples contains \<open>y\<close> and not \<open>x\<close>.\<close>

theorem deoptimizePath_import_reassignment_witness:
  "deoptimizePath (ex_env True ex_no_registry) (ex_top ''let'' True) []
     = Inl (ContextError (errorIllegalImportReassignment ''x'' ''main.js'') 20) \<and>
   deoptimizePath (ex_env True ex_no_registry)
       ((ex_top ''let'' True)\<lparr>node := (node (ex_top ''let'' True))\<lparr>name := ''y''\<rparr>\<rparr>) []
     = Inr ((ex_top ''let'' True)
              \<lparr>node := (node (ex_top ''let'' True))\<lparr>name := ''y''\<rparr>,
               calls := [Variable_deoptimizePath 0 []]\<rparr>)"
  using deoptimizePath_import_reassignment
      [of "[]" "ex_env True ex_no_registry" "ex_top ''let'' True"]
    deoptimizePath_import_reassignment
      [of "[]" "ex_env True ex_no_registry"
          "(ex_top ''let'' True)\<lparr>node := (node (ex_top ''let'' True))\<lparr>name := ''y''\<rparr>\<rparr>"]
  by (simp add: ex_defs)


subsection \<open>Declarations\<close>



text \<open>
  Claim C9, as the code has it. \<open>declare\<close> with kind var marks the initializers of the
  registered variable for deoptimization exactly when tree-shaking is on and its option
  \<open>correctVarValueBeforeDeclaration\<close> is set; with every other kind, and with the option
  off, it marks nothing.
\<close>

theorem declare_identifier_marks_initializers:
  assumes "declare_identifier env s k init = Inr (vs, s1)"
  shows "filter isMarkCall (calls s1) =
     filter isMarkCall (calls s) @
       (if k = ''var'' \<and> correctVarValueBeforeDeclaration_enabled env
        then map Variable_markInitializersForDeoptimization vs else [])"
  using assms
  by (auto simp: declare_identifier_def finishDeclare_def addDeclaration_def
      addParameterDeclaration_def Let_def split: prod.splits if_splits)

theorem declare_identifier_marks_initializers_witness:
  "declare_identifier (ex_env True ex_no_registry) (ex_top ''let'' True) ''var'' 0
     = Inr ([0], ex_declared_var) \<and>
   filter isMarkCall (calls ex_declared_var) = [Variable_markInitializersForDeoptimization 0]"
proof -
  have a: "declare_identifier (ex_env True ex_no_registry) (ex_top ''let'' True) ''var'' 0
     = Inr ([0], ex_declared_var)"
    by (simp add: declare_identifier_def finishDeclare_def addDeclaration_def
        correctVarValueBeforeDeclaration_enabled_def ex_declared_var_def ex_defs)
  have b: "calls (ex_top ''let'' True) = []"
    by (simp add: ex_defs)
  have c: "correctVarValueBeforeDeclaration_enabled (ex_env True ex_no_registry)"
    by (simp add: correctVarValueBeforeDeclaration_enabled_def ex_env_def)
  from declare_identifier_marks_initializers [OF a] b c a show ?thesis by simp
qed

text \<open>
  Claim C9 as stated fails: with the option off, \<open>declare\<close> with kind var calls the scope
  and marks nothing.
\<close>

theorem declare_identifier_var_unmarked_counterexample:
  "map_sum id (\<lambda>r. calls (snd r))
     (declare_identifier (ex_env False ex_no_registry) (ex_top ''let'' True) ''var'' 0)
   = Inr [Scope_addDeclaration 7 0 True]"
  by (simp add: declare_identifier_def finishDeclare_def addDeclaration_def
      correctVarValueBeforeDeclaration_enabled_def ex_defs)

subsection \<open>Value queries under a positive verdict\<close>

text \<open>
  Claim C10. When the verdict is positive, \<open>getLiteralValueAtPath\<close> returns the unknown
  value at every path, whatever the variable would answer, and
  \<open>getReturnExpressionWhenCalledAtPath\<close> returns the unknown expression; its second
  component is the answer of the purity registry and so can still be true.
\<close>

theorem TDZ_positive_value_queries:
  assumes "fst (isPossibleTDZ s)"
  shows "getLiteralValueAtPath env s path tracker origin =
           Inr (UnknownValue, snd (isPossibleTDZ s)) \<and>
         getReturnExpressionWhenCalledAtPath env s path interaction tracker origin =
           Inr ((UNKNOWN_EXPRESSION, isPureFunction env (node s) path), snd (isPossibleTDZ s))"
  using assms
  by (simp add: getLiteralValueAtPath_def getReturnExpressionWhenCalledAtPath_def
      getVariableRespectingTDZ_def case_prod_beta call_getLiteralValueAtPath_def
      call_getReturnExpressionWhenCalledAtPath_def unknown_getLiteralValueAtPath_def
      unknown_getReturnExpressionWhenCalledAtPath_def isPureFunction_def)

text \<open>
  The variable of the examples answers the literal 1 at every path and \<open>x\<close> is registered
  pure: the read before the declaration gets the unknown value, and a call gets the
  unknown expression, flagged pure.
\<close>

theorem TDZ_positive_value_queries_witness:
  "fst (isPossibleTDZ (ex_top ''let'' False)) \<and>
   getLiteralValueAtPath (ex_env True ex_registry) (ex_top ''let'' False) [] 0 0
     = Inr (UnknownValue, snd (isPossibleTDZ (ex_top ''let'' False))) \<and>
   getReturnExpressionWhenCalledAtPath (ex_env True ex_registry) (ex_top ''let'' False) []
       \<lparr>itype = INTERACTION_CALLED, contents = 0\<rparr> 0 0
     = Inr ((UNKNOWN_EXPRESSION, True), snd (isPossibleTDZ (ex_top ''let'' False)))"
proof -
  have a: "fst (isPossibleTDZ (ex_top ''let'' False))"
    by (simp add: ex_defs tdz_defs)
  have b: "isPureFunction (ex_env True ex_registry) (node (ex_top ''let'' False)) []"
    by (simp add: isPureFunction_def ex_defs)
  from TDZ_positive_value_queries
      [OF a, of "ex_env True ex_registry" "[]" 0 0 "\<lparr>itype = INTERACTION_CALLED, contents = 0\<rparr>"]
    a b
  show ?thesis by simp
qed

text \<open>Without a positive verdict the variable itself is asked.\<close>

lemma value_query_without_TDZ:
  "getLiteralValueAtPath (ex_env True ex_registry) (ex_nested ''let'' True) [] 0 0
     = Inr (LiteralValue ''1'', snd (isPossibleTDZ (ex_nested ''let'' True)))"
  by (simp add: getLiteralValueAtPath_def getVariableRespectingTDZ_def
      call_getLiteralValueAtPath_def ex_defs tdz_defs)

subsection \<open>Consolidation of initializers\<close>









end
